theory Spec2Isabelle
  imports Complex_Main "HOL-Library.Signed_Division"
begin

section \<open>Bytes and the C library functions the code relies on\<close>

text \<open>
  A \<open>std::string\<close> is a sequence of bytes and is modelled as \<open>string\<close> (a list of 8-bit
  \<open>char\<close>); \<open>of_char\<close> reads a byte as the \<open>unsigned char\<close> value 0..255.
  A C string (\<open>const char*\<close>) is represented by the list of the characters before its
  terminating NUL, so that \<open>strlen\<close> is \<open>length\<close>; a null pointer is \<open>None\<close>.
  C \<open>int\<close> values are modelled as unbounded \<open>int\<close>; \<open>/\<close> and \<open>%\<close> are the truncating
  \<open>sdiv\<close> and \<open>smod\<close>.
\<close>

definition backslash :: char where
  "backslash = CHR 0x5C"

definition byte :: "char \<Rightarrow> nat" where
  \<comment> \<open>\<open>static_cast<unsigned char>(c)\<close>\<close>
  "byte c = of_char c"

text \<open>The \<open><cctype>\<close> classification functions in the default "C" locale.\<close>

definition isdigit_c :: "char \<Rightarrow> bool" where
  "isdigit_c c = (48 \<le> byte c \<and> byte c \<le> 57)"

definition isupper_c :: "char \<Rightarrow> bool" where
  "isupper_c c = (65 \<le> byte c \<and> byte c \<le> 90)"

definition islower_c :: "char \<Rightarrow> bool" where
  "islower_c c = (97 \<le> byte c \<and> byte c \<le> 122)"

definition isalpha_c :: "char \<Rightarrow> bool" where
  "isalpha_c c = (isupper_c c \<or> islower_c c)"

definition isalnum_c :: "char \<Rightarrow> bool" where
  "isalnum_c c = (isalpha_c c \<or> isdigit_c c)"

definition isspace_c :: "char \<Rightarrow> bool" where
  \<comment> \<open>space, and \<open>\t \n \v \f \r\<close>\<close>
  "isspace_c c = (byte c = 32 \<or> (9 \<le> byte c \<and> byte c \<le> 13))"

definition toupper_c :: "char \<Rightarrow> char" where
  "toupper_c c = (if islower_c c then char_of (byte c - 32) else c)"

definition isxdigit_c :: "char \<Rightarrow> bool" where
  "isxdigit_c c = (isdigit_c c \<or> (97 \<le> byte c \<and> byte c \<le> 102) \<or> (65 \<le> byte c \<and> byte c \<le> 70))"

definition xdigit_value :: "char \<Rightarrow> int" where
  \<comment> \<open>the value of a hexadecimal digit; only used on characters with \<open>isxdigit_c\<close>\<close>
  "xdigit_value c =
     (if isdigit_c c then int (byte c) - 48
      else if 97 \<le> byte c then int (byte c) - 87
      else int (byte c) - 55)"

text \<open>
  \<open>std::stoi(str, nullptr, 16)\<close>, which is \<open>strtol\<close> with base 16: leading white space is
  skipped, one sign is accepted, then an optional \<open>0x\<close>/\<open>0X\<close> prefix (only when a
  hexadecimal digit follows it), then the longest run of hexadecimal digits is converted
  and whatever follows is ignored. \<open>None\<close> stands for the two exceptions of \<open>std::stoi\<close>:
  \<open>std::invalid_argument\<close> when no digit could be converted and \<open>std::out_of_range\<close>
  when the value does not fit an \<open>int\<close>.
\<close>

definition strip_sign :: "string \<Rightarrow> bool \<times> string" where
  "strip_sign s =
     (case s of
        [] \<Rightarrow> (False, [])
      | c # r \<Rightarrow> if c = CHR ''-'' then (True, r)
                else if c = CHR ''+'' then (False, r)
                else (False, s))"

definition strip_0x :: "string \<Rightarrow> string" where
  "strip_0x s =
     (case s of
        c0 # cx # h # r \<Rightarrow>
          if c0 = CHR ''0'' \<and> (cx = CHR ''x'' \<or> cx = CHR ''X'') \<and> isxdigit_c h then h # r else s
      | _ \<Rightarrow> s)"

definition stoi16 :: "string \<Rightarrow> int option" where
  "stoi16 str =
     (let (neg, s) = strip_sign (dropWhile isspace_c str);
          ds = takeWhile isxdigit_c (strip_0x s);
          v = foldl (\<lambda>a c. 16 * a + xdigit_value c) 0 ds;
          r = (if neg then - v else v)
      in if ds = [] then None
         else if r < - (2 ^ 31) \<or> 2 ^ 31 - 1 < r then None
         else Some r)"

section \<open>The special-character codec (\<open>barcode_generator.cpp\<close>)\<close>

definition hex_digit :: "nat \<Rightarrow> char" where
  \<comment> \<open>one digit as \<open>std::hex\<close> prints it: lower case\<close>
  "hex_digit d = (if d < 10 then char_of (48 + d) else char_of (87 + d))"

definition hex2 :: "nat \<Rightarrow> string" where
  \<comment> \<open>\<open>std::hex << std::setw(2) << std::setfill('0') << static_cast<int>(c)\<close> for a byte\<close>
  "hex2 n = [hex_digit (n div 16), hex_digit (n mod 16)]"

definition encode_char :: "char \<Rightarrow> string" where
  "encode_char c =
     (if byte c < 32 \<or> 126 < byte c then [backslash, CHR ''x''] @ hex2 (byte c)
      else if c = backslash then [backslash, backslash]
      else [c])"

definition encodeSpecialChars :: "string \<Rightarrow> string" where
  "encodeSpecialChars input = concat (map encode_char input)"

text \<open>
  The decoding loop keeps an index \<open>i\<close> into \<open>input\<close>; the model recurses on the
  suffix of \<open>input\<close> from \<open>i\<close>. With \<open>s\<close> the suffix after \<open>input[i]\<close>, the test
  \<open>i + 1 < input.length()\<close> is \<open>s \<noteq> []\<close> and \<open>i + 3 < input.length()\<close> is
  \<open>3 \<le> length s\<close>; \<open>input.substr(i + 2, 2)\<close> is \<open>take 2 (tl s)\<close>.
  \<open>static_cast<char>(value)\<close> keeps the low eight bits (\<open>char_of\<close>).
\<close>

function decodeSpecialChars :: "string \<Rightarrow> string" where
  "decodeSpecialChars [] = []"
| "decodeSpecialChars (c # s) =
     (if c = backslash \<and> s \<noteq> [] then
        if hd s = backslash then backslash # decodeSpecialChars (tl s)
        else if hd s = CHR ''x'' \<and> 3 \<le> length s then
          (case stoi16 (take 2 (tl s)) of
             Some v \<Rightarrow> char_of v # decodeSpecialChars (drop 3 s)
           | None \<Rightarrow> c # decodeSpecialChars s)
        else c # decodeSpecialChars s
      else c # decodeSpecialChars s)"
  by pat_completeness auto
termination
  by (relation "measure length") auto

definition printable :: "char \<Rightarrow> bool" where
  \<comment> \<open>a byte in the range 32..126\<close>
  "printable c = (32 \<le> byte c \<and> byte c \<le> 126)"

section \<open>The validator (\<open>BarcodeGenerator::validateData\<close>)\<close>

datatype BarcodeType = CODE_128 | CODE_39 | QR_CODE | DATA_MATRIX | EAN_13

text \<open>
  The two \<open>for\<close> loops of \<open>validateData\<close>, each leaving with \<open>false\<close> at the first
  offending character. The \<open>default: return false\<close> branch of the \<open>switch\<close> is for values
  outside the enumeration, which \<open>BarcodeType\<close> does not have.
\<close>

fun code39_loop :: "string \<Rightarrow> bool" where
  "code39_loop [] = True"
| "code39_loop (c # cs) =
     (if \<not> isalnum_c (toupper_c c) \<and>
         c \<noteq> CHR '' '' \<and> c \<noteq> CHR ''-'' \<and> c \<noteq> CHR ''.'' \<and> c \<noteq> CHR ''$'' \<and>
         c \<noteq> CHR ''/'' \<and> c \<noteq> CHR ''+'' \<and> c \<noteq> CHR ''%''
      then False
      else if isalpha_c c \<and> islower_c c then False
      else code39_loop cs)"

fun ean13_loop :: "string \<Rightarrow> bool" where
  "ean13_loop [] = True"
| "ean13_loop (c # cs) = (if \<not> isdigit_c c then False else ean13_loop cs)"

definition validateData :: "string \<Rightarrow> BarcodeType \<Rightarrow> bool" where
  "validateData data t =
     (if data = [] then False
      else case t of
          CODE_39 \<Rightarrow> code39_loop data
        | EAN_13 \<Rightarrow>
            if length data \<noteq> 12 \<and> length data \<noteq> 13 then False else ean13_loop data
        | CODE_128 \<Rightarrow> True
        | QR_CODE \<Rightarrow> True
        | DATA_MATRIX \<Rightarrow> True)"

definition code39_allowed :: "char \<Rightarrow> bool" where
  \<comment> \<open>the character set of the specification: upper-case letters, digits and seven symbols\<close>
  "code39_allowed c = (isupper_c c \<or> isdigit_c c \<or> c \<in> set ''-.$/+% '')"

section \<open>The generator (\<open>BarcodeGenerator::generate\<close>)\<close>

datatype ErrorCode =
    SUCCESS | VERSION_INCOMPATIBLE | NO_DRAWING_OPEN | NO_MODEL_ASSOCIATED
  | BARCODE_GENERATION_FAILED | IMAGE_INSERT_FAILED | CONFIG_LOAD_FAILED
  | CONFIG_SAVE_FAILED | FILE_NOT_FOUND | INVALID_BARCODE_TYPE | INVALID_DATA
  | BATCH_PARTIAL_FAILURE | DECODE_FAILED | INVALID_SIZE | DATA_OUT_OF_SYNC
  | SYNC_CHECK_FAILED

text \<open>
  The fields of the records carry a short prefix where the source's field name
  (\<open>code\<close>, \<open>type\<close>, \<open>width\<close>, \<open>x\<close>, ...) is also the name of a variable.
\<close>

record ErrorInfo =
  err_code :: ErrorCode
  err_message :: string
  err_details :: string

definition mkErrorInfo :: "ErrorCode \<Rightarrow> string \<Rightarrow> ErrorInfo" where
  \<comment> \<open>the constructor \<open>ErrorInfo(c, msg, det = "")\<close> with its default argument\<close>
  "mkErrorInfo c msg = \<lparr>err_code = c, err_message = msg, err_details = []\<rparr>"

record BarcodeConfig =
  cfg_type :: BarcodeType
  cfg_width :: int
  cfg_height :: int
  cfg_margin :: int
  cfg_showText :: bool
  cfg_dpi :: int

text \<open>
  The ZXing writer is an external library. It is a parameter of the model: given the
  format, the data and the requested size it either throws (\<open>Inl\<close> of \<open>e.what()\<close>) or
  returns a bit matrix of a size of its own choice.
\<close>

datatype ZXingFormat = Code128 | Code39 | QRCode | DataMatrix | EAN13

record BitMatrix =
  bm_width :: int
  bm_height :: int
  bm_get :: "int \<Rightarrow> int \<Rightarrow> bool"

fun toZXingFormat :: "BarcodeType \<Rightarrow> ZXingFormat" where
  "toZXingFormat CODE_128 = Code128"
| "toZXingFormat CODE_39 = Code39"
| "toZXingFormat QR_CODE = QRCode"
| "toZXingFormat DATA_MATRIX = DataMatrix"
| "toZXingFormat EAN_13 = EAN13"

text \<open>
  \<open>scaleImage\<close> computes in \<open>double\<close>, modelled by \<open>real\<close> without rounding (so
  the source may sample a neighbouring pixel where a product falls on a whole number;
  only the size of the result is used below); \<open>static_cast<int>\<close> truncates towards
  zero. A read outside \<open>src\<close> is undefined behaviour in the source; the model reads 0
  there. Other exceptions than the writer's (such as \<open>std::bad_alloc\<close>) are not modelled.
\<close>

definition trunc_to_int :: "real \<Rightarrow> int" where
  "trunc_to_int r = (if 0 \<le> r then \<lfloor>r\<rfloor> else \<lceil>r\<rceil>)"

definition scaleImage :: "nat list \<Rightarrow> int \<Rightarrow> int \<Rightarrow> int \<Rightarrow> int \<Rightarrow> nat list" where
  "scaleImage src srcWidth srcHeight dstWidth dstHeight =
     (let xRatio = real_of_int srcWidth / real_of_int dstWidth;
          yRatio = real_of_int srcHeight / real_of_int dstHeight
      in concat (map (\<lambda>y. map (\<lambda>x.
           let srcX = trunc_to_int (real x * xRatio);
               srcY = trunc_to_int (real y * yRatio);
               k = srcY * srcWidth + srcX
           in if 0 \<le> k \<and> k < int (length src) then src ! nat k else 0)
         [0..<nat dstWidth]) [0..<nat dstHeight]))"

record png_file =
  png_width :: int
  png_height :: int
  png_comp :: int
  png_pixels :: "nat list"
  png_stride :: int

record generate_result =
  gen_ok :: bool
  gen_lastError :: ErrorInfo
  gen_file :: "(string \<times> png_file) option"

definition gen_fail :: "ErrorInfo \<Rightarrow> generate_result" where
  \<comment> \<open>\<open>lastError_ = ...; return false;\<close> with nothing written\<close>
  "gen_fail e = \<lparr>gen_ok = False, gen_lastError = e, gen_file = None\<rparr>"

text \<open>
  \<open>generate\<close> takes the writer \<open>encode\<close>, the image library's \<open>stbi_write_png\<close> (which
  tells whether the file could be written) and the generator's current \<open>lastError_\<close>; it
  returns the boolean result, the new \<open>lastError_\<close> and the file written, if any.
\<close>

definition generate ::
  "(ZXingFormat \<Rightarrow> string \<Rightarrow> int \<Rightarrow> int \<Rightarrow> string + BitMatrix) \<Rightarrow> (string \<Rightarrow> png_file \<Rightarrow> bool) \<Rightarrow>
   ErrorInfo \<Rightarrow> string \<Rightarrow> BarcodeConfig \<Rightarrow> string \<Rightarrow> generate_result" where
  "generate encode stbi_write_png lastError data config outputPath =
     (if data = [] then gen_fail (mkErrorInfo INVALID_DATA ''Empty data'')
      else if cfg_width config \<le> 0 \<or> cfg_height config \<le> 0
        then gen_fail (mkErrorInfo INVALID_SIZE ''Invalid dimensions'')
      else if \<not> validateData data (cfg_type config)
        then gen_fail (mkErrorInfo INVALID_DATA ''Data not valid for barcode type'')
      else
        (case encode (toZXingFormat (cfg_type config)) data (cfg_width config) (cfg_height config) of
           Inl what \<Rightarrow> gen_fail (mkErrorInfo BARCODE_GENERATION_FAILED what)
         | Inr matrix \<Rightarrow>
             let matrixWidth = bm_width matrix;
                 matrixHeight = bm_height matrix;
                 pixels = concat (map (\<lambda>y. map (\<lambda>x.
                            if bm_get matrix (int x) (int y) then 0 else 255)
                          [0..<nat matrixWidth]) [0..<nat matrixHeight]);
                 finalWidth = cfg_width config;
                 finalHeight = cfg_height config;
                 finalPixels =
                   (if matrixWidth \<noteq> cfg_width config \<or> matrixHeight \<noteq> cfg_height config
                    then scaleImage pixels matrixWidth matrixHeight (cfg_width config) (cfg_height config)
                    else pixels);
                 image = \<lparr>png_width = finalWidth, png_height = finalHeight, png_comp = 1,
                          png_pixels = finalPixels, png_stride = finalWidth\<rparr>
             in if \<not> stbi_write_png outputPath image
                then gen_fail (mkErrorInfo BARCODE_GENERATION_FAILED ''Failed to write image'')
                else \<lparr>gen_ok = True, gen_lastError = lastError,
                      gen_file = Some (outputPath, image)\<rparr>))"

section \<open>Double-precision numbers\<close>

text \<open>
  A \<open>double\<close> is an IEEE 754 binary64 number: a finite value, one of the two
  infinities, or NaN. A finite number is given by its value, so that the two zeros are
  one (they compare equal, and sums, differences and products of equal arguments are
  equal). Every operation computes the exact result and rounds it once, to the nearest
  representable number, to the even one of two nearest: numbers of magnitude at least
  \<open>2 ^ (- 1022)\<close> have 53 significant bits, smaller ones are multiples of
  \<open>2 ^ (- 1074)\<close>, and a rounded magnitude of \<open>2 ^ 1024\<close> or more is an infinity. The
  source's expressions are taken as written, one rounding for each operation (not
  fused into a multiply-add).
\<close>

datatype double = Finite real | PlusInf | MinusInf | NaN

definition round_even :: "real \<Rightarrow> int" where
  \<comment> \<open>the nearest integer, the even one when two are nearest\<close>
  "round_even y =
     (let f = \<lfloor>y\<rfloor>
      in if y - of_int f < 1 / 2 then f
         else if 1 / 2 < y - of_int f then f + 1
         else if even f then f else f + 1)"

definition round64 :: "real \<Rightarrow> double" where
  \<comment> \<open>\<open>e\<close> is the binary exponent of \<open>v\<close> and \<open>2 powi q\<close> the spacing of the doubles around it\<close>
  "round64 v =
     (if v = 0 then Finite 0
      else
        let e = \<lfloor>log 2 \<bar>v\<bar>\<rfloor>;
            q = max (e - 52) (- 1074);
            r = of_int (round_even (v / 2 powi q)) * 2 powi q
        in if 2 ^ 1024 \<le> \<bar>r\<bar> then (if 0 < v then PlusInf else MinusInf) else Finite r)"

definition double_of_int :: "int \<Rightarrow> double" where
  \<comment> \<open>the conversion of an \<open>int\<close> operand to \<open>double\<close>\<close>
  "double_of_int k = round64 (of_int k)"

fun dadd :: "double \<Rightarrow> double \<Rightarrow> double" where
  "dadd (Finite a) (Finite b) = round64 (a + b)"
| "dadd NaN d = NaN"
| "dadd d NaN = NaN"
| "dadd PlusInf MinusInf = NaN"
| "dadd MinusInf PlusInf = NaN"
| "dadd PlusInf d = PlusInf"
| "dadd d PlusInf = PlusInf"
| "dadd MinusInf d = MinusInf"
| "dadd d MinusInf = MinusInf"

fun dneg :: "double \<Rightarrow> double" where
  "dneg (Finite a) = Finite (- a)"
| "dneg PlusInf = MinusInf"
| "dneg MinusInf = PlusInf"
| "dneg NaN = NaN"

definition dsub :: "double \<Rightarrow> double \<Rightarrow> double" where
  "dsub a b = dadd a (dneg b)"

fun negative :: "double \<Rightarrow> bool" where
  "negative (Finite a) = (a < 0)"
| "negative MinusInf = True"
| "negative PlusInf = False"
| "negative NaN = False"

fun is_zero :: "double \<Rightarrow> bool" where
  "is_zero (Finite a) = (a = 0)"
| "is_zero d = False"

fun dmul :: "double \<Rightarrow> double \<Rightarrow> double" where
  \<comment> \<open>the last equation is for an infinity times a number: zero times infinity is NaN\<close>
  "dmul (Finite a) (Finite b) = round64 (a * b)"
| "dmul NaN d = NaN"
| "dmul d NaN = NaN"
| "dmul c d =
     (if is_zero c \<or> is_zero d then NaN
      else if negative c = negative d then PlusInf else MinusInf)"

fun is_finite :: "double \<Rightarrow> bool" where
  "is_finite (Finite a) = True"
| "is_finite d = False"

fun valid_double :: "double \<Rightarrow> bool" where
  \<comment> \<open>a finite value is a double when rounding leaves it as it is\<close>
  "valid_double (Finite a) = (round64 a = Finite a)"
| "valid_double d = True"

section \<open>The grid layout (\<open>calculateGridPosition\<close>)\<close>

record GridPosition =
  pos_x :: double
  pos_y :: double

text \<open>
  \<open>index\<close> and \<open>columns\<close> are C \<open>int\<close>s, with the truncating \<open>%\<close> and \<open>/\<close>; the
  coordinates are \<open>double\<close>s, and \<open>col\<close> and \<open>row\<close> are converted to \<open>double\<close> for the
  products.
\<close>

definition calculateGridPosition ::
  "int \<Rightarrow> int \<Rightarrow> double \<Rightarrow> double \<Rightarrow> double \<Rightarrow> double \<Rightarrow> double \<Rightarrow> GridPosition" where
  "calculateGridPosition index columns spacing startX startY width height =
     (let columns = (if columns < 1 then 1 else columns);
          col = index smod columns;
          row = index sdiv columns
      in \<lparr>pos_x = dadd startX (dmul (double_of_int col) (dadd width spacing)),
          pos_y = dsub startY (dmul (double_of_int row) (dadd height spacing))\<rparr>)"

section \<open>Batch insertion (\<open>CreoComBridge::batchInsertImages\<close>, \<open>batchInsertImagesGrid\<close>)\<close>

record BatchInsertResult =
  totalCount :: int
  successCount :: int
  failCount :: int
  failedPaths :: "string list"
  errorMessages :: "string list"

record BatchImageInfo =
  imagePath :: string
  img_x :: double
  img_y :: double
  img_width :: double
  img_height :: double

record GridLayoutParams =
  gl_startX :: double
  gl_startY :: double
  gl_width :: double
  gl_height :: double
  gl_columns :: int
  gl_spacing :: double

text \<open>
  \<open>insertImage\<close> talks to the host application through COM. It is a parameter of the
  model: a function of the bridge's state \<open>'b\<close> (the COM session and \<open>m_lastError\<close>)
  that returns its boolean result and the new state; \<open>m_lastError\<close> reads the error
  message out of the state. The \<open>LOG_INFO\<close> and \<open>LOG_WARNING\<close> lines are not modelled.
\<close>

type_synonym 'b insert_fn = "'b \<Rightarrow> string \<Rightarrow> double \<Rightarrow> double \<Rightarrow> double \<Rightarrow> double \<Rightarrow> bool \<times> 'b"

definition record_success :: "BatchInsertResult \<Rightarrow> BatchInsertResult" where
  "record_success result = result\<lparr>successCount := successCount result + 1\<rparr>"

definition record_failure :: "string \<Rightarrow> string \<Rightarrow> BatchInsertResult \<Rightarrow> BatchInsertResult" where
  "record_failure path msg result =
     result\<lparr>failCount := failCount result + 1,
            failedPaths := failedPaths result @ [path],
            errorMessages := errorMessages result @ [msg]\<rparr>"

definition empty_result :: "nat \<Rightarrow> BatchInsertResult" where
  \<comment> \<open>the result as initialised before the loop\<close>
  "empty_result n =
     \<lparr>totalCount = int n, successCount = 0, failCount = 0, failedPaths = [], errorMessages = []\<rparr>"

fun images_loop ::
  "'b insert_fn \<Rightarrow> ('b \<Rightarrow> string) \<Rightarrow> BatchImageInfo list \<Rightarrow> BatchInsertResult \<Rightarrow> 'b
   \<Rightarrow> BatchInsertResult \<times> 'b" where
  "images_loop insertImage m_lastError [] result b = (result, b)"
| "images_loop insertImage m_lastError (img # rest) result b =
     (let (inserted, b') =
            insertImage b (imagePath img) (img_x img) (img_y img) (img_width img) (img_height img)
      in if inserted
         then images_loop insertImage m_lastError rest (record_success result) b'
         else images_loop insertImage m_lastError rest
                (record_failure (imagePath img) (m_lastError b') result) b')"

definition batchInsertImages ::
  "'b insert_fn \<Rightarrow> ('b \<Rightarrow> string) \<Rightarrow> BatchImageInfo list \<Rightarrow> 'b \<Rightarrow> BatchInsertResult \<times> 'b" where
  "batchInsertImages insertImage m_lastError images b =
     (if images = [] then (empty_result (length images), b)
      else images_loop insertImage m_lastError images (empty_result (length images)) b)"

text \<open>The loop of \<open>batchInsertImagesGrid\<close>, from index \<open>i\<close> on.\<close>

fun grid_loop ::
  "'b insert_fn \<Rightarrow> ('b \<Rightarrow> string) \<Rightarrow> int \<Rightarrow> GridLayoutParams \<Rightarrow> nat \<Rightarrow> string list \<Rightarrow>
   BatchInsertResult \<Rightarrow> 'b \<Rightarrow> BatchInsertResult \<times> 'b" where
  "grid_loop insertImage m_lastError columns params i [] result b = (result, b)"
| "grid_loop insertImage m_lastError columns params i (path # rest) result b =
     (let pos = calculateGridPosition (int i) columns (gl_spacing params)
                  (gl_startX params) (gl_startY params) (gl_width params) (gl_height params);
          (inserted, b') =
            insertImage b path (pos_x pos) (pos_y pos) (gl_width params) (gl_height params)
      in if inserted
         then grid_loop insertImage m_lastError columns params (i + 1) rest
                (record_success result) b'
         else grid_loop insertImage m_lastError columns params (i + 1) rest
                (record_failure path (m_lastError b') result) b')"

definition batchInsertImagesGrid ::
  "'b insert_fn \<Rightarrow> ('b \<Rightarrow> string) \<Rightarrow> string list \<Rightarrow> GridLayoutParams \<Rightarrow> 'b
   \<Rightarrow> BatchInsertResult \<times> 'b" where
  "batchInsertImagesGrid insertImage m_lastError imagePaths params b =
     (if imagePaths = [] then (empty_result (length imagePaths), b)
      else
        let columns = (if gl_columns params < 1 then 1 else gl_columns params)
        in grid_loop insertImage m_lastError columns params 0 imagePaths
             (empty_result (length imagePaths)) b)"

text \<open>
  For the statement that no failure stops a batch: the outcome of attempting every
  requested insertion in order, whatever the earlier ones returned. An attempt is the
  path with the position and size passed to \<open>insertImage\<close>; its outcome is the boolean
  result with the error message that the bridge holds after the call.
\<close>

type_synonym attempt = "string \<times> double \<times> double \<times> double \<times> double"

fun attempt_all ::
  "'b insert_fn \<Rightarrow> ('b \<Rightarrow> string) \<Rightarrow> attempt list \<Rightarrow> 'b \<Rightarrow> (string \<times> bool \<times> string) list" where
  "attempt_all insertImage m_lastError [] b = []"
| "attempt_all insertImage m_lastError ((path, ax, ay, aw, ah) # rest) b =
     (let (inserted, b') = insertImage b path ax ay aw ah
      in (path, inserted, m_lastError b') # attempt_all insertImage m_lastError rest b')"

definition image_attempt :: "BatchImageInfo \<Rightarrow> attempt" where
  "image_attempt img = (imagePath img, img_x img, img_y img, img_width img, img_height img)"

definition grid_attempt :: "GridLayoutParams \<Rightarrow> int \<Rightarrow> nat \<Rightarrow> string \<Rightarrow> attempt" where
  \<comment> \<open>the insertion requested for the image of index \<open>i\<close> in a grid of \<open>columns\<close> columns\<close>
  "grid_attempt params columns i path =
     (let pos = calculateGridPosition (int i) columns (gl_spacing params)
                  (gl_startX params) (gl_startY params) (gl_width params) (gl_height params)
      in (path, pos_x pos, pos_y pos, gl_width params, gl_height params))"

definition failed :: "(string \<times> bool \<times> string) list \<Rightarrow> (string \<times> bool \<times> string) list" where
  "failed outcomes = filter (\<lambda>(path, inserted, msg). \<not> inserted) outcomes"

definition succeeded :: "(string \<times> bool \<times> string) list \<Rightarrow> (string \<times> bool \<times> string) list" where
  "succeeded outcomes = filter (\<lambda>(path, inserted, msg). inserted) outcomes"

section \<open>The batch processor (\<open>BatchProcessor::process\<close>)\<close>






section \<open>The dependency-free Code 128 generator (\<open>barcode_pure_c.c\<close>)\<close>

definition CODE128_PATTERNS :: "string list" where
  "CODE128_PATTERNS =
    [''212222'', ''222122'', ''222221'', ''121223'', ''121322'',
     ''131222'', ''122213'', ''122312'', ''132212'', ''221213'',
     ''221312'', ''231212'', ''112232'', ''122132'', ''122231'',
     ''113222'', ''123122'', ''123221'', ''223211'', ''221132'',
     ''221231'', ''213212'', ''223112'', ''312131'', ''311222'',
     ''321122'', ''321221'', ''312212'', ''322112'', ''322211'',
     ''212123'', ''212321'', ''232121'', ''111323'', ''131123'',
     ''131321'', ''112313'', ''132113'', ''132311'', ''211313'',
     ''231113'', ''231311'', ''112133'', ''112331'', ''132131'',
     ''113123'', ''113321'', ''133121'', ''313121'', ''211331'',
     ''231131'', ''213113'', ''213311'', ''213131'', ''311123'',
     ''311321'', ''331121'', ''312113'', ''312311'', ''332111'',
     ''314111'', ''221411'', ''431111'', ''111224'', ''111422'',
     ''121124'', ''121421'', ''141122'', ''141221'', ''112214'',
     ''112412'', ''122114'', ''122411'', ''142112'', ''142211'',
     ''241211'', ''221114'', ''413111'', ''241112'', ''134111'',
     ''111242'', ''121142'', ''121241'', ''114212'', ''124112'',
     ''124211'', ''411212'', ''421112'', ''421211'', ''212141'',
     ''214121'', ''412121'', ''111143'', ''111341'', ''131141'',
     ''114113'', ''114311'', ''411113'', ''411311'', ''113141'',
     ''114131'', ''311141'', ''411131'', ''211412'', ''211214'',
     ''211232'',
     ''2331112'']"

text \<open>
  \<open>code128b_value\<close> compares a \<open>char\<close> with 32 and 127. Whether \<open>char\<close> is signed or not,
  the test holds exactly for the bytes 32..127: a byte above 127 is negative as a
  signed \<open>char\<close> and above 127 as an unsigned one.
\<close>

definition code128b_value :: "char \<Rightarrow> int" where
  "code128b_value c = (if 32 \<le> byte c \<and> byte c \<le> 127 then int (byte c) - 32 else 0)"

fun checksum_loop :: "string \<Rightarrow> int \<Rightarrow> int \<Rightarrow> int" where
  \<comment> \<open>the \<open>for\<close> loop from index \<open>i\<close> on, over the rest of \<open>data\<close>; \<open>sm\<close> is the running \<open>sum\<close>\<close>
  "checksum_loop [] i sm = sm"
| "checksum_loop (c # rest) i sm = checksum_loop rest (i + 1) (sm + code128b_value c * (i + 1))"

definition calculate_checksum :: "string \<Rightarrow> int \<Rightarrow> int" where
  "calculate_checksum data startCode = checksum_loop data 0 startCode smod 103"

text \<open>
  The BMP file as far as the claims need it: the dimensions and sizes in its headers,
  and \<open>bmp_drawn\<close>, the patterns handed to \<open>DRAW_PATTERN\<close> in order (the pixel buffer
  itself is not modelled). \<open>malloc_ok\<close> tells whether \<open>malloc\<close> of a size succeeds and
  \<open>fopen_ok\<close> whether the output file can be created.
\<close>

record bmp_file =
  biWidth :: int
  biHeight :: int
  biBitCount :: int
  biSizeImage :: int
  bmp_drawn :: "string list"

definition data_patterns :: "string \<Rightarrow> string list" where
  \<comment> \<open>the loop over the data characters, with its bounds check on \<open>value\<close>\<close>
  "data_patterns data =
     concat (map (\<lambda>c. let v = code128b_value c
                      in if 0 \<le> v \<and> v < 106 then [CODE128_PATTERNS ! nat v] else []) data)"

definition pure_c_layout :: "int \<Rightarrow> int \<Rightarrow> int \<Rightarrow> int \<Rightarrow> int \<times> int \<times> int \<times> int" where
  \<comment> \<open>the module width, the recalculated width, the height and the row size\<close>
  "pure_c_layout dataLen width height margin =
     (let totalModules = 11 + dataLen * 11 + 11 + 13;
          barcodeWidth = width - 2 * margin;
          moduleWidth = barcodeWidth sdiv totalModules;
          moduleWidth = (if moduleWidth < 2 then 2 else moduleWidth);
          barcodeWidth = moduleWidth * totalModules;
          width = barcodeWidth + 2 * margin;
          height = (if height < 60 then 60 else height);
          rowSize = ((width * 3 + 3) sdiv 4) * 4
      in (moduleWidth, width, height, rowSize))"

definition pure_c_drawn :: "string \<Rightarrow> string list" where
  \<comment> \<open>START B, the data characters, the checksum (with its bounds check) and STOP\<close>
  "pure_c_drawn data =
     (let checksum = calculate_checksum data 104
      in [CODE128_PATTERNS ! 104] @ data_patterns data
         @ (if 0 \<le> checksum \<and> checksum < 106 then [CODE128_PATTERNS ! nat checksum] else [])
         @ [CODE128_PATTERNS ! 106])"

definition barcode_generate_pure_c ::
  "(int \<Rightarrow> bool) \<Rightarrow> (string \<Rightarrow> bool) \<Rightarrow> string option \<Rightarrow> string option \<Rightarrow> int \<Rightarrow> int \<Rightarrow> int
   \<Rightarrow> int \<times> (string \<times> bmp_file) option" where
  "barcode_generate_pure_c malloc_ok fopen_ok data outputPath width height margin =
     (case (data, outputPath) of
        (Some d, Some path) \<Rightarrow>
          if d = [] then (- 1, None)
          else
            let dataLen = int (length d)
            in if 80 < dataLen then (- 2, None)
               else
                 let (moduleWidth, width, height, rowSize) = pure_c_layout dataLen width height margin
                 in if \<not> malloc_ok (rowSize * height) then (- 3, None)
                    else
                      let drawn = pure_c_drawn d
                      in if \<not> fopen_ok path then (- 4, None)
                         else (0, Some (path,
                                 \<lparr>biWidth = width, biHeight = height, biBitCount = 24,
                                  biSizeImage = rowSize * height, bmp_drawn = drawn\<rparr>))
      | _ \<Rightarrow> (- 1, None))"

text \<open>\<open>sprintf\<close> with \<open>%d\<close>, for the wrapper's message of an unknown result.\<close>

fun decimal_nat :: "nat \<Rightarrow> string" where
  "decimal_nat n =
     (if n < 10 then [char_of (48 + n)] else decimal_nat (n div 10) @ [char_of (48 + n mod 10)])"

definition decimal_int :: "int \<Rightarrow> string" where
  "decimal_int k = (if k < 0 then CHR ''-'' # decimal_nat (nat (- k)) else decimal_nat (nat k))"

text \<open>
  The wrapper \<open>barcode_generate_c\<close>: it ignores \<open>type\<close>, and sets the global
  \<open>g_purec_error\<close>, returned here as the second component.
\<close>

definition barcode_generate_c ::
  "(int \<Rightarrow> bool) \<Rightarrow> (string \<Rightarrow> bool) \<Rightarrow> string option \<Rightarrow> int \<Rightarrow> int \<Rightarrow> int \<Rightarrow> int \<Rightarrow> string option
   \<Rightarrow> int \<times> string \<times> (string \<times> bmp_file) option" where
  "barcode_generate_c malloc_ok fopen_ok data type width height margin outputPath =
     (let (result, file) = barcode_generate_pure_c malloc_ok fopen_ok data outputPath width height margin;
          g_purec_error =
            (if result = 0 then []
             else if result = - 1 then ''Invalid parameters''
             else if result = - 2 then ''Data too long (max 80 characters)''
             else if result = - 3 then ''Memory allocation failed''
             else if result = - 4 then ''Cannot create output file''
             else ''Unknown error: '' @ decimal_int result)
      in (result, g_purec_error, file))"

section \<open>Auxiliary definitions for the statements\<close>

text \<open>The result record after the outcomes of a run of insertions have been counted in.\<close>

definition tally :: "BatchInsertResult \<Rightarrow> (string \<times> bool \<times> string) list \<Rightarrow> BatchInsertResult" where
  "tally result outcomes =
     result\<lparr>successCount := successCount result + int (length (succeeded outcomes)),
            failCount := failCount result + int (length (failed outcomes)),
            failedPaths := failedPaths result @ map fst (failed outcomes),
            errorMessages := errorMessages result @ map (snd \<circ> snd) (failed outcomes)\<rparr>"

definition grid_attempts :: "GridLayoutParams \<Rightarrow> int \<Rightarrow> nat \<Rightarrow> string list \<Rightarrow> attempt list" where
  \<comment> \<open>the insertions requested for \<open>paths\<close>, the first of which has index \<open>i\<close>\<close>
  "grid_attempts params columns i paths =
     map2 (grid_attempt params columns) [i..<i + length paths] paths"

text \<open>Collaborators for concrete runs of the model.\<close>

definition succeeds :: "'a \<Rightarrow> bool" where
  \<comment> \<open>an allocation, a file creation or a file write that always succeeds\<close>
  "succeeds request = True"

definition write_ok :: "string \<Rightarrow> png_file \<Rightarrow> bool" where
  \<comment> \<open>an \<open>stbi_write_png\<close> that always succeeds\<close>
  "write_ok path img = True"

definition sample_encode :: "ZXingFormat \<Rightarrow> string \<Rightarrow> int \<Rightarrow> int \<Rightarrow> string + BitMatrix" where
  \<comment> \<open>a writer that answers every request with a matrix of two columns and one row\<close>
  "sample_encode format data w h = Inr \<lparr>bm_width = 2, bm_height = 1, bm_get = (\<lambda>x y. x = 0)\<rparr>"

definition sample_config :: "BarcodeType \<Rightarrow> int \<Rightarrow> int \<Rightarrow> BarcodeConfig" where
  "sample_config t w h =
     \<lparr>cfg_type = t, cfg_width = w, cfg_height = h, cfg_margin = 10, cfg_showText = False,
      cfg_dpi = 300\<rparr>"

definition no_error :: ErrorInfo where
  \<comment> \<open>the default-constructed \<open>ErrorInfo\<close>\<close>
  "no_error = \<lparr>err_code = SUCCESS, err_message = [], err_details = []\<rparr>"




definition insert_nonempty :: "string insert_fn" where
  \<comment> \<open>an \<open>insertImage\<close> that fails on the empty path, as the parameter check of the source does\<close>
  "insert_nonempty b path ax ay aw ah =
     (if path = [] then (False, ''Image path cannot be empty'') else (True, b))"

definition last_message :: "string \<Rightarrow> string" where
  "last_message b = b"

section \<open>Properties of the codec\<close>

lemma hex_digit_byte: "d < 16 \<Longrightarrow> byte (hex_digit d) = (if d < 10 then 48 + d else 87 + d)"
  by (simp add: hex_digit_def byte_def)

lemma hex_digit_xdigit: "d < 16 \<Longrightarrow> isxdigit_c (hex_digit d)"
  by (simp add: isxdigit_c_def isdigit_c_def hex_digit_byte)

lemma hex_digit_value: "d < 16 \<Longrightarrow> xdigit_value (hex_digit d) = int d"
  by (simp add: xdigit_value_def isdigit_c_def hex_digit_byte)

lemma hex_digit_not_space: "d < 16 \<Longrightarrow> \<not> isspace_c (hex_digit d)"
  by (simp add: isspace_c_def hex_digit_byte)

lemma byte_eq_iff: "c = c' \<longleftrightarrow> byte c = byte c'"
  by (simp add: byte_def)

lemma hex_digit_not_sign: "d < 16 \<Longrightarrow> hex_digit d \<noteq> CHR ''-'' \<and> hex_digit d \<noteq> CHR ''+''"
  by (simp add: byte_eq_iff hex_digit_byte) (simp add: byte_def)

lemma hex_digit_printable: "d < 16 \<Longrightarrow> printable (hex_digit d)"
  by (simp add: printable_def hex_digit_byte)

text \<open>The two digits that the encoder prints for a byte are read back by \<open>std::stoi\<close>.\<close>

lemma stoi16_hex2:
  assumes n: "n < 256"
  shows "stoi16 (hex2 n) = Some (int n)"
proof -
  have a: "n div 16 < 16" and b: "n mod 16 < 16"
    using n by auto
  have s: "dropWhile isspace_c (hex2 n) = hex2 n"
    by (simp add: hex2_def hex_digit_not_space a)
  have g: "strip_sign (hex2 n) = (False, hex2 n)"
    using hex_digit_not_sign [OF a] by (simp add: strip_sign_def hex2_def)
  have p: "strip_0x (hex2 n) = hex2 n"
    by (simp add: strip_0x_def hex2_def)
  have t: "takeWhile isxdigit_c (hex2 n) = hex2 n"
    by (simp add: hex2_def hex_digit_xdigit a b)
  have "16 * int (n div 16) + int (n mod 16) = int n"
    by (simp add: zdiv_int zmod_int)
  then have v: "foldl (\<lambda>a c. 16 * a + xdigit_value c) 0 (hex2 n) = int n"
    by (simp add: hex2_def hex_digit_value a b)
  have ne: "hex2 n \<noteq> []"
    by (simp add: hex2_def)
  show ?thesis
    unfolding stoi16_def s g using n by (simp add: p t v ne)
qed

text \<open>One encoded byte at the front of any string is decoded to that byte.\<close>

lemma decode_encode_char:
  "decodeSpecialChars (encode_char c @ rest) = c # decodeSpecialChars rest"
proof -
  have lt: "byte c < 256"
    by (simp add: byte_def)
  have x: "CHR ''x'' \<noteq> backslash"
    by (simp add: backslash_def)
  show ?thesis
  proof (cases "byte c < 32 \<or> 126 < byte c")
    case True
    have c: "char_of (int (byte c)) = c" "char_of (byte c) = c"
      by (simp_all add: byte_def)
    obtain h1 h2 where h: "hex2 (byte c) = [h1, h2]"
      by (simp add: hex2_def)
    have "stoi16 [h1, h2] = Some (int (byte c))"
      using stoi16_hex2 [OF lt] by (simp add: h)
    with True show ?thesis
      by (simp add: encode_char_def x h c)
  next
    case False
    then show ?thesis
      by (simp add: encode_char_def)
  qed
qed

lemma encode_char_printable: "list_all printable (encode_char c)"
proof -
  have a: "byte c div 16 < 16" and b: "byte c mod 16 < 16"
    by (simp_all add: byte_def div_less_iff_less_mult)
  have bs: "printable backslash" and x: "printable CHR ''x''"
    by (simp_all add: printable_def byte_def backslash_def)
  show ?thesis
    by (simp add: encode_char_def hex2_def hex_digit_printable a b bs x)
       (simp add: printable_def)
qed

lemma decode_encode: "decodeSpecialChars (encodeSpecialChars x) = x"
  by (induction x) (simp_all add: encodeSpecialChars_def decode_encode_char)

lemma encode_printable: "list_all printable (encodeSpecialChars x)"
  by (induction x) (simp_all add: encodeSpecialChars_def encode_char_printable)

lemma encode_single: "encodeSpecialChars [c] = encode_char c"
  by (simp add: encodeSpecialChars_def)

text \<open>
  Claim C1. Decoding an encoded byte string gives the byte string back, for every byte
  string; every byte of the encoding lies in 32..126; a backslash is written as two
  backslashes, and a byte outside 32..126 as a backslash, the letter x and its two
  hexadecimal digits, padded with a zero.
\<close>

theorem codec_invertible:
  "decodeSpecialChars (encodeSpecialChars x) = x
   \<and> list_all printable (encodeSpecialChars x)
   \<and> encodeSpecialChars [backslash] = [backslash, backslash]
   \<and> (byte c < 32 \<or> 126 < byte c \<longrightarrow>
        encodeSpecialChars [c]
          = [backslash, CHR ''x'', hex_digit (byte c div 16), hex_digit (byte c mod 16)])"
  by (simp add: decode_encode encode_printable encode_single encode_char_def hex2_def)
     (simp add: byte_def backslash_def)

theorem codec_invertible_witness:
  "decodeSpecialChars (encodeSpecialChars [CHR ''A'', CHR 0x01, CHR ''B'', backslash, CHR 0xFF])
     = [CHR ''A'', CHR 0x01, CHR ''B'', backslash, CHR 0xFF]
   \<and> byte (CHR 0x01) < 32
   \<and> encodeSpecialChars [CHR 0x01] = [backslash, CHR ''x'', CHR ''0'', CHR ''1'']"
proof -
  have h: "hex_digit 0 = CHR ''0''" "hex_digit (Suc 0) = CHR ''1''"
    by code_simp+
  have b: "byte (CHR 0x01) = 1"
    by (simp add: byte_def)
  show ?thesis
    using codec_invertible [of "[CHR ''A'', CHR 0x01, CHR ''B'', backslash, CHR 0xFF]" "CHR 0x01"]
    by (simp add: b h)
qed

text \<open>
  Claim C9. The claim: a backslash and an x whose two following characters are not both
  hexadecimal digits are kept as they are. The code leaves the check to \<open>std::stoi\<close>,
  which converts a valid prefix and ignores the rest: on the four characters backslash,
  x, 1, g it reads the value 1, emits the byte 1 and skips all four characters.
\<close>

theorem decode_malformed_hex_not_preserved:
  "decodeSpecialChars [backslash, CHR ''x'', CHR ''1'', CHR ''g''] = [CHR 0x01]
   \<and> \<not> isxdigit_c (CHR ''g'')"
  by code_simp

section \<open>The validator\<close>

lemma toupper_lower: "islower_c c \<Longrightarrow> isupper_c (toupper_c c)"
  by (auto simp add: toupper_c_def islower_c_def isupper_c_def byte_def)

lemma lower_not_allowed: "islower_c c \<Longrightarrow> \<not> code39_allowed c"
  by (auto simp add: code39_allowed_def islower_c_def isupper_c_def isdigit_c_def byte_def)

lemma at_not_allowed: "\<not> code39_allowed (CHR ''@'')"
  by (simp add: code39_allowed_def isupper_c_def isdigit_c_def byte_def)

text \<open>The two tests of the Code 39 loop body together accept exactly the allowed set.\<close>

lemma code39_char:
  "(\<not> (\<not> isalnum_c (toupper_c c) \<and>
         c \<noteq> CHR '' '' \<and> c \<noteq> CHR ''-'' \<and> c \<noteq> CHR ''.'' \<and> c \<noteq> CHR ''$'' \<and>
         c \<noteq> CHR ''/'' \<and> c \<noteq> CHR ''+'' \<and> c \<noteq> CHR ''%'') \<and> \<not> (isalpha_c c \<and> islower_c c))
   = code39_allowed c"
proof (cases "islower_c c")
  case True
  then have "isalnum_c (toupper_c c)"
    by (simp add: isalnum_c_def isalpha_c_def toupper_lower)
  with True lower_not_allowed [of c] show ?thesis
    by (simp add: isalpha_c_def)
next
  case False
  then show ?thesis
    by (auto simp add: code39_allowed_def toupper_c_def isalnum_c_def isalpha_c_def)
qed

lemma code39_step: "code39_loop (c # cs) = (code39_allowed c \<and> code39_loop cs)"
proof -
  define A where "A = (\<not> isalnum_c (toupper_c c) \<and>
         c \<noteq> CHR '' '' \<and> c \<noteq> CHR ''-'' \<and> c \<noteq> CHR ''.'' \<and> c \<noteq> CHR ''$'' \<and>
         c \<noteq> CHR ''/'' \<and> c \<noteq> CHR ''+'' \<and> c \<noteq> CHR ''%'')"
  define B where "B = (isalpha_c c \<and> islower_c c)"
  have "code39_loop (c # cs) = (if A then False else if B then False else code39_loop cs)"
    unfolding A_def B_def by (simp only: code39_loop.simps)
  moreover have "(\<not> A \<and> \<not> B) = code39_allowed c"
    unfolding A_def B_def by (rule code39_char)
  ultimately show ?thesis
    by (cases A; cases B; simp)
qed

lemma code39_loop_iff: "code39_loop data = list_all code39_allowed data"
  by (induction data) (simp, simp only: code39_step list.pred_inject)

lemma ean13_loop_iff: "ean13_loop data = list_all isdigit_c data"
  by (induction data) simp_all

text \<open>
  Claim C5. \<open>validateData\<close> rejects the empty string for every type; for EAN-13 it
  accepts exactly the strings of 12 or 13 digits; for Code 39 it accepts exactly the
  non-empty strings over upper-case letters, digits and the seven symbols, so that a
  lower-case letter or an \<open>@\<close> anywhere is rejected; for Code 128, QR and Data Matrix it
  accepts every non-empty string.
\<close>

theorem validateData_rules:
  "validateData [] t = False
   \<and> validateData data EAN_13 = ((length data = 12 \<or> length data = 13) \<and> list_all isdigit_c data)
   \<and> validateData data CODE_39 = (data \<noteq> [] \<and> list_all code39_allowed data)
   \<and> ((\<exists>c \<in> set data. islower_c c \<or> c = CHR ''@'') \<longrightarrow> validateData data CODE_39 = False)
   \<and> (data \<noteq> [] \<longrightarrow> validateData data CODE_128 \<and> validateData data QR_CODE
                      \<and> validateData data DATA_MATRIX)"
proof -
  have e: "validateData data EAN_13
             = ((length data = 12 \<or> length data = 13) \<and> list_all isdigit_c data)"
    by (auto simp add: validateData_def ean13_loop_iff)
  have c: "validateData data CODE_39 = (data \<noteq> [] \<and> list_all code39_allowed data)"
    by (simp add: validateData_def code39_loop_iff)
  have r: "(\<exists>c \<in> set data. islower_c c \<or> c = CHR ''@'') \<longrightarrow> validateData data CODE_39 = False"
    using lower_not_allowed at_not_allowed by (auto simp add: c list_all_iff)
  show ?thesis
    using e c r by (simp add: validateData_def)
qed

theorem validateData_rules_witness:
  "validateData ''123456789012'' EAN_13 \<and> \<not> validateData ''12345678901'' EAN_13
   \<and> (\<exists>c \<in> set ''TEST@123''. islower_c c \<or> c = CHR ''@'') \<and> \<not> validateData ''TEST@123'' CODE_39
   \<and> ''TEST123'' \<noteq> [] \<and> validateData ''TEST123'' CODE_128"
  using validateData_rules [of EAN_13 "''123456789012''"]
    validateData_rules [of EAN_13 "''12345678901''"]
    validateData_rules [of EAN_13 "''TEST@123''"]
    validateData_rules [of EAN_13 "''TEST123''"]
  by (simp add: isdigit_c_def byte_def islower_c_def isupper_c_def code39_allowed_def)

section \<open>The generator\<close>

text \<open>
  Claim C8. \<open>generate\<close> fails with \<open>INVALID_DATA\<close> on empty data, whatever the
  configuration; on non-empty data it fails with \<open>INVALID_SIZE\<close> when the width or the
  height is not positive, whether the data are valid or not; otherwise it fails with
  \<open>INVALID_DATA\<close> when the validator rejects the data. In all three cases nothing is
  written, and the result is the same for every writer and every image library: they
  are not consulted.
\<close>

theorem generate_preconditions:
  "generate encode stbi_write_png lastError [] config outputPath
     = \<lparr>gen_ok = False,
        gen_lastError = \<lparr>err_code = INVALID_DATA, err_message = ''Empty data'', err_details = []\<rparr>,
        gen_file = None\<rparr>
   \<and> (data \<noteq> [] \<and> (cfg_width config \<le> 0 \<or> cfg_height config \<le> 0) \<longrightarrow>
        generate encode stbi_write_png lastError data config outputPath
          = \<lparr>gen_ok = False,
             gen_lastError = \<lparr>err_code = INVALID_SIZE, err_message = ''Invalid dimensions'',
                              err_details = []\<rparr>,
             gen_file = None\<rparr>)
   \<and> (data \<noteq> [] \<and> 0 < cfg_width config \<and> 0 < cfg_height config
        \<and> \<not> validateData data (cfg_type config) \<longrightarrow>
        generate encode stbi_write_png lastError data config outputPath
          = \<lparr>gen_ok = False,
             gen_lastError = \<lparr>err_code = INVALID_DATA,
                              err_message = ''Data not valid for barcode type'',
                              err_details = []\<rparr>,
             gen_file = None\<rparr>)
   \<and> (data = [] \<or> cfg_width config \<le> 0 \<or> cfg_height config \<le> 0
        \<or> \<not> validateData data (cfg_type config) \<longrightarrow>
        generate encode stbi_write_png lastError data config outputPath
          = generate encode' stbi_write_png' lastError' data config outputPath)"
proof -
  have independent:
    "generate encode stbi_write_png lastError data config outputPath
       = generate encode' stbi_write_png' lastError' data config outputPath"
    if "data = [] \<or> cfg_width config \<le> 0 \<or> cfg_height config \<le> 0
        \<or> \<not> validateData data (cfg_type config)"
    using that by (auto simp add: generate_def)
  show ?thesis
    using independent by (simp add: generate_def gen_fail_def mkErrorInfo_def)
qed

theorem generate_preconditions_witness:
  "err_code (gen_lastError (generate sample_encode write_ok no_error [] (sample_config EAN_13 0 80) ''out.png''))
     = INVALID_DATA
   \<and> ''12345678901'' \<noteq> [] \<and> cfg_width (sample_config EAN_13 0 80) \<le> 0
   \<and> err_code (gen_lastError (generate sample_encode write_ok no_error ''12345678901''
         (sample_config EAN_13 0 80) ''out.png'')) = INVALID_SIZE
   \<and> 0 < cfg_width (sample_config EAN_13 200 80) \<and> 0 < cfg_height (sample_config EAN_13 200 80)
   \<and> \<not> validateData ''12345678901'' (cfg_type (sample_config EAN_13 200 80))
   \<and> err_code (gen_lastError (generate sample_encode write_ok no_error ''12345678901''
         (sample_config EAN_13 200 80) ''out.png'')) = INVALID_DATA"
proof -
  have v: "\<not> validateData ''12345678901'' EAN_13"
    by (simp add: validateData_def)
  show ?thesis
    using generate_preconditions [of sample_encode write_ok no_error "sample_config EAN_13 0 80"
        "''out.png''" "''12345678901''" sample_encode write_ok no_error]
      generate_preconditions [of sample_encode write_ok no_error "sample_config EAN_13 200 80"
        "''out.png''" "''12345678901''" sample_encode write_ok no_error]
    by (simp add: sample_config_def v)
qed

lemma length_rows: "length (concat (map (\<lambda>y. map (g y) [0..<a]) [0..<b])) = b * a"
  by (induction b) simp_all

lemma length_scaleImage:
  "length (scaleImage src srcWidth srcHeight dstWidth dstHeight) = nat dstHeight * nat dstWidth"
  unfolding scaleImage_def Let_def by (rule length_rows)

text \<open>A successful \<open>generate\<close> has written an image of the configured size.\<close>

lemma generate_success_file:
  assumes "gen_ok (generate encode stbi_write_png lastError data config outputPath)"
  shows "\<exists>image. gen_file (generate encode stbi_write_png lastError data config outputPath)
             = Some (outputPath, image)
           \<and> png_width image = cfg_width config \<and> png_height image = cfg_height config
           \<and> length (png_pixels image) = nat (cfg_height config) * nat (cfg_width config)"
proof -
  from assms have pre: "data \<noteq> []" "0 < cfg_width config" "0 < cfg_height config"
    by (auto simp add: generate_def gen_fail_def split: if_splits)
  from assms obtain matrix where
    m: "encode (toZXingFormat (cfg_type config)) data (cfg_width config) (cfg_height config)
          = Inr matrix"
    by (auto simp add: generate_def gen_fail_def split: if_splits sum.splits)
  from assms pre m show ?thesis
    by (auto simp add: generate_def gen_fail_def Let_def length_rows length_scaleImage
        split: if_splits)
qed

section \<open>The dependency-free generator\<close>

lemma pure_c_layout_eq:
  "pure_c_layout dataLen width height margin =
     (max 2 ((width - 2 * margin) sdiv (35 + 11 * dataLen)),
      max 2 ((width - 2 * margin) sdiv (35 + 11 * dataLen)) * (35 + 11 * dataLen) + 2 * margin,
      max height 60,
      ((max 2 ((width - 2 * margin) sdiv (35 + 11 * dataLen)) * (35 + 11 * dataLen) + 2 * margin)
         * 3 + 3) sdiv 4 * 4)"
proof -
  have e: "11 + dataLen * 11 + 11 + 13 = 35 + 11 * dataLen"
    by simp
  have m: "(if a < 2 then 2 else a) = max 2 a" for a :: int
    by simp
  have h: "(if height < 60 then 60 else height) = max height 60"
    by simp
  show ?thesis
    unfolding pure_c_layout_def Let_def e m h by (rule refl)
qed

lemma pure_c_dims:
  assumes "barcode_generate_pure_c malloc_ok fopen_ok (Some d) outputPath width height margin
             = (0, Some (path, bmp))"
  shows "biWidth bmp = max 2 ((width - 2 * margin) sdiv (35 + 11 * int (length d)))
                         * (35 + 11 * int (length d)) + 2 * margin
       \<and> biHeight bmp = max height 60"
  using assms
  unfolding barcode_generate_pure_c_def pure_c_layout_eq Let_def
  by (auto split: option.splits if_splits)

text \<open>
  Claim C2. The claim: every successful generation, in every code path, writes an image
  of exactly the requested width and height. The dependency-free path recalculates the
  width from the module width and raises the height to 60: asked for 300 by 100 with
  margin 10 and the data PART12345, it writes a bitmap of 288 by 100.
\<close>

theorem pure_c_dimensions_counterexample:
  "barcode_generate_pure_c succeeds succeeds (Some ''PART12345'') (Some ''out.bmp'') 300 100 10
     = (0, Some (''out.bmp'',
          \<lparr>biWidth = 288, biHeight = 100, biBitCount = 24, biSizeImage = 86400,
           bmp_drawn = pure_c_drawn ''PART12345''\<rparr>))"
  by (simp add: barcode_generate_pure_c_def pure_c_layout_def succeeds_def
      signed_divide_int_def Let_def)

text \<open>
  Claim C2, amended. A successful \<open>generate\<close> writes an image whose width and height are
  the configured ones, with one pixel for each position. A successful
  \<open>barcode_generate_pure_c\<close> on data of \<open>n\<close> characters writes a bitmap of width
  \<open>m * (35 + 11 * n) + 2 * margin\<close>, where the module width \<open>m\<close> is the truncated
  quotient of \<open>width - 2 * margin\<close> by \<open>35 + 11 * n\<close> and at least 2, and of height
  \<open>max height 60\<close>.
\<close>

theorem dimensions_by_path:
  "(gen_ok (generate encode stbi_write_png lastError data config outputPath) \<longrightarrow>
      (\<exists>image. gen_file (generate encode stbi_write_png lastError data config outputPath)
                 = Some (outputPath, image)
               \<and> png_width image = cfg_width config \<and> png_height image = cfg_height config
               \<and> length (png_pixels image) = nat (cfg_height config) * nat (cfg_width config)))
   \<and> (barcode_generate_pure_c malloc_ok fopen_ok (Some d) bmpPath width height margin
         = (0, Some (path, bmp)) \<longrightarrow>
      biWidth bmp = max 2 ((width - 2 * margin) sdiv (35 + 11 * int (length d)))
                      * (35 + 11 * int (length d)) + 2 * margin
      \<and> biHeight bmp = max height 60)"
  using generate_success_file pure_c_dims by blast

theorem dimensions_by_path_witness:
  "gen_ok (generate sample_encode write_ok no_error ''PART12345'' (sample_config CODE_128 300 100)
             ''out.png'')
   \<and> map_option (png_width \<circ> snd)
        (gen_file (generate sample_encode write_ok no_error ''PART12345''
                     (sample_config CODE_128 300 100) ''out.png'')) = Some 300
   \<and> map_option (png_height \<circ> snd)
        (gen_file (generate sample_encode write_ok no_error ''PART12345''
                     (sample_config CODE_128 300 100) ''out.png'')) = Some 100
   \<and> barcode_generate_pure_c succeeds succeeds (Some ''PART12345'') (Some ''out.bmp'') 300 30 10
       = (0, Some (''out.bmp'',
            \<lparr>biWidth = 288, biHeight = 60, biBitCount = 24, biSizeImage = 51840,
             bmp_drawn = pure_c_drawn ''PART12345''\<rparr>))
   \<and> max 2 ((300 - 2 * 10) sdiv (35 + 11 * int (length ''PART12345'')))
        * (35 + 11 * int (length ''PART12345'')) + 2 * 10 = (288 :: int)"
proof -
  let ?bmp = "\<lparr>biWidth = 288, biHeight = 60, biBitCount = 24, biSizeImage = 51840,
             bmp_drawn = pure_c_drawn ''PART12345''\<rparr>"
  have ok: "gen_ok (generate sample_encode write_ok no_error ''PART12345''
                      (sample_config CODE_128 300 100) ''out.png'')"
    by (simp add: generate_def sample_config_def sample_encode_def write_ok_def validateData_def
        Let_def)
  have run: "barcode_generate_pure_c succeeds succeeds (Some ''PART12345'') (Some ''out.bmp'')
               300 30 10 = (0, Some (''out.bmp'', ?bmp))"
    by (simp add: barcode_generate_pure_c_def pure_c_layout_def succeeds_def
        signed_divide_int_def Let_def)
  from dimensions_by_path [of sample_encode write_ok no_error "''PART12345''"
      "sample_config CODE_128 300 100" "''out.png''" succeeds succeeds "''PART12345''"
      "Some ''out.bmp''" 300 30 10 "''out.bmp''" ?bmp] ok run
  show ?thesis
    by (auto simp add: sample_config_def)
qed

section \<open>Double-precision numbers: rounding\<close>

lemma round_even_int: "round_even (of_int m) = m"
  by (simp add: round_even_def)

lemma round64_zero: "round64 0 = Finite 0"
  by (simp add: round64_def)

lemma log2_less_pow:
  fixes a :: real
  assumes "0 < a" "a < 2 ^ n"
  shows "log 2 a < real n"
proof -
  have "log 2 a < log 2 (2 ^ n)"
    using assms by (subst log_less_cancel_iff) simp_all
  then show ?thesis
    by simp
qed

lemma floor_log2_pow: "\<lfloor>log 2 \<bar>(2::real) ^ n\<bar>\<rfloor> = int n"
  by simp

lemma floor_log2_bounds:
  fixes a :: real
  assumes "1 \<le> a" "a < 2 ^ 53"
  shows "0 \<le> \<lfloor>log 2 a\<rfloor> \<and> \<lfloor>log 2 a\<rfloor> \<le> 52"
proof -
  have "0 \<le> log 2 a"
    using assms by simp
  moreover have "log 2 a < real 53"
    using assms by (intro log2_less_pow) simp_all
  ultimately show ?thesis
    by (simp add: floor_le_iff le_floor_iff)
qed

text \<open>An integer of magnitude below \<open>2 ^ 53\<close> is a double: rounding leaves it as it is.\<close>

lemma round64_int:
  assumes "\<bar>n\<bar> < 2 ^ 53"
  shows "round64 (of_int n) = Finite (of_int n)"
proof (cases "n = 0")
  case True
  then show ?thesis
    by (simp add: round64_zero)
next
  case False
  define a :: real where "a = \<bar>of_int n\<bar>"
  have a1: "1 \<le> a"
    using False by (simp add: a_def)
  have "real_of_int \<bar>n\<bar> < real_of_int (2 ^ 53)"
    using assms by (simp only: of_int_less_iff)
  then have a2: "a < 2 ^ 53"
    by (simp add: a_def)
  define e where "e = \<lfloor>log 2 a\<rfloor>"
  have e: "0 \<le> e" "e \<le> 52"
    using floor_log2_bounds [OF a1 a2] by (simp_all add: e_def)
  have q: "max (e - 52) (- 1074) = e - 52"
    using e by simp
  define k where "k = nat (52 - e)"
  have k: "int k = 52 - e"
    using e by (simp add: k_def)
  have p: "(2::real) powi (e - 52) = inverse (2 ^ k)"
  proof -
    have "e - 52 = - int k"
      using k by simp
    then show ?thesis
      by (simp add: power_int_minus)
  qed
  have d: "real_of_int n / 2 powi (e - 52) = of_int (n * 2 ^ k)"
    by (simp add: p divide_inverse)
  have r: "of_int (round_even (real_of_int n / 2 powi (e - 52))) * 2 powi (e - 52)
             = real_of_int n"
    unfolding d round_even_int by (simp add: p)
  have big: "\<not> (2::real) ^ 1024 \<le> \<bar>real_of_int n\<bar>"
  proof -
    have "(2::real) ^ 53 \<le> 2 ^ 1024"
      by (rule power_increasing) simp_all
    with a2 show ?thesis
      by (simp add: a_def)
  qed
  show ?thesis
    using False big
    unfolding round64_def Let_def a_def [symmetric] e_def [symmetric] q r
    by (simp add: a_def)
qed

lemma round64_numeral:
  "\<bar>numeral w :: int\<bar> < 2 ^ 53 \<Longrightarrow> round64 (numeral w) = Finite (numeral w)"
  "\<bar>numeral w :: int\<bar> < 2 ^ 53 \<Longrightarrow> round64 (- numeral w) = Finite (- numeral w)"
  "round64 1 = Finite 1"
  using round64_int [of "numeral w"] round64_int [of "- numeral w"] round64_int [of 1]
  by simp_all

lemma double_of_int_exact: "\<bar>n\<bar> < 2 ^ 53 \<Longrightarrow> double_of_int n = Finite (of_int n)"
  by (simp add: double_of_int_def round64_int)

text \<open>The sum of \<open>2 ^ 1023\<close> and \<open>2 ^ 1023\<close> overflows.\<close>

lemma round64_overflow: "round64 (2 ^ 1023 + 2 ^ 1023) = PlusInf"
proof -
  have s: "(2::real) ^ 1023 + 2 ^ 1023 = 2 ^ 1024"
    by simp
  have l: "\<lfloor>log 2 \<bar>(2::real) ^ 1024\<bar>\<rfloor> = 1024"
    using floor_log2_pow [of 1024] by simp
  have q: "max (1024 - 52) (- 1074) = (972::int)"
    by simp
  have p: "(2::real) powi 972 = 2 ^ 972"
    using power_int_of_nat [of "2::real" 972] by simp
  have d: "(2::real) ^ 1024 / 2 ^ 972 = of_int (2 ^ 52)"
  proof -
    have "(2::real) ^ 1024 = 2 ^ 52 * 2 ^ 972"
      by (simp add: power_add [symmetric])
    then show ?thesis
      by simp
  qed
  have m: "real_of_int (2 ^ 52) * 2 ^ 972 = 2 ^ 1024"
    by (simp add: power_add [symmetric])
  show ?thesis
    unfolding s round64_def Let_def l q p d round_even_int m by simp
qed

lemma dadd_zero_right: "valid_double d \<Longrightarrow> dadd d (Finite 0) = d"
  by (cases d) simp_all

lemma dmul_zero_left: "is_finite d \<Longrightarrow> dmul (Finite 0) d = Finite 0"
  by (cases d) (simp_all add: round64_zero)

section \<open>The grid layout\<close>

lemma grid_columns: "(if columns < 1 then 1 else columns) = max columns (1::int)"
  by simp

lemma grid_col_row:
  fixes index columns :: int
  assumes "0 \<le> index"
  shows "index smod max columns 1 = index mod max columns 1"
    and "index sdiv max columns 1 = index div max columns 1"
proof -
  have m: "0 < max columns 1"
    by simp
  show "index smod max columns 1 = index mod max columns 1"
    using assms m by (simp add: signed_modulo_int_def sgn_if abs_of_nonneg)
  show "index sdiv max columns 1 = index div max columns 1"
    using assms m by (simp add: signed_divide_int_def sgn_if)
qed

text \<open>
  Claim C3. The claim: the position is exactly
  \<open>startX + (index mod max columns 1) * (width + spacing)\<close> and
  \<open>startY - (index div max columns 1) * (height + spacing)\<close>, and index 0 is always
  placed at \<open>(startX, startY)\<close>. The source computes in \<open>double\<close>: with a width and a
  spacing of \<open>2 ^ 1023\<close> each, their sum overflows to infinity, zero times infinity is
  NaN, and index 0 at the origin (5, 5) is placed at (NaN, NaN).
\<close>

theorem grid_index_zero_counterexample:
  "calculateGridPosition 0 3 (Finite (2 ^ 1023)) (Finite 5) (Finite 5)
     (Finite (2 ^ 1023)) (Finite (2 ^ 1023))
     = \<lparr>pos_x = NaN, pos_y = NaN\<rparr>"
proof -
  have z: "double_of_int 0 = Finite 0"
    by (simp add: double_of_int_def round64_zero)
  have o: "dadd (Finite (2 ^ 1023)) (Finite (2 ^ 1023)) = PlusInf"
    by (simp only: dadd.simps round64_overflow)
  show ?thesis
    unfolding calculateGridPosition_def Let_def o
    by (simp add: z dsub_def signed_modulo_int_def signed_divide_int_def)
qed

text \<open>
  Claim C3, amended. For every index that is not negative, the position is
  \<open>startX + col * (width + spacing)\<close> and \<open>startY - row * (height + spacing)\<close> with
  \<open>col = index mod max columns 1\<close> and \<open>row = index div max columns 1\<close>, where the sums,
  the difference and the products are those of \<open>double\<close>, each rounded (and infinite or
  NaN on overflow); index 0 is placed at \<open>(startX, startY)\<close>, as numbers (the two zeros
  are one), whenever \<open>width + spacing\<close> and \<open>height + spacing\<close> are finite; and the call with index 5, 3 columns, spacing 10,
  origin (0, 0) and cells of 50 by 50 gives (120, -60).
\<close>

theorem calculateGridPosition_formula:
  assumes "0 \<le> index"
  shows "calculateGridPosition index columns spacing startX startY width height
           = \<lparr>pos_x = dadd startX (dmul (double_of_int (index mod max columns 1))
                                      (dadd width spacing)),
              pos_y = dsub startY (dmul (double_of_int (index div max columns 1))
                                      (dadd height spacing))\<rparr>
         \<and> (valid_double startX \<and> valid_double startY
            \<and> is_finite (dadd width spacing) \<and> is_finite (dadd height spacing) \<longrightarrow>
              calculateGridPosition 0 columns spacing startX startY width height
                = \<lparr>pos_x = startX, pos_y = startY\<rparr>)
         \<and> calculateGridPosition 5 3 (Finite 10) (Finite 0) (Finite 0) (Finite 50) (Finite 50)
             = \<lparr>pos_x = Finite 120, pos_y = Finite (- 60)\<rparr>"
proof -
  have general: "calculateGridPosition index columns spacing startX startY width height
           = \<lparr>pos_x = dadd startX (dmul (double_of_int (index mod max columns 1))
                                      (dadd width spacing)),
              pos_y = dsub startY (dmul (double_of_int (index div max columns 1))
                                      (dadd height spacing))\<rparr>"
    unfolding calculateGridPosition_def grid_columns Let_def grid_col_row [OF assms]
    by (rule refl)
  have z: "double_of_int 0 = Finite 0"
    by (simp add: double_of_int_def round64_zero)
  have zero: "calculateGridPosition 0 columns spacing startX startY width height
                = \<lparr>pos_x = startX, pos_y = startY\<rparr>"
    if v: "valid_double startX" "valid_double startY"
      and f: "is_finite (dadd width spacing)" "is_finite (dadd height spacing)"
  proof -
    have "dneg (Finite 0) = Finite 0"
      by simp
    then have "dsub startY (Finite 0) = startY"
      using v(2) by (simp add: dsub_def dadd_zero_right)
    then show ?thesis
      unfolding calculateGridPosition_def grid_columns Let_def
      by (simp add: z dmul_zero_left f dadd_zero_right v)
  qed
  have five: "(5::int) smod 3 = 2" "(5::int) sdiv 3 = 1"
    by (simp_all add: signed_modulo_int_def signed_divide_int_def)
  have example:
    "calculateGridPosition 5 3 (Finite 10) (Finite 0) (Finite 0) (Finite 50) (Finite 50)
       = \<lparr>pos_x = Finite 120, pos_y = Finite (- 60)\<rparr>"
    unfolding calculateGridPosition_def Let_def
    by (simp add: five double_of_int_exact round64_numeral dsub_def)
  show ?thesis
    using general zero example by blast
qed

theorem calculateGridPosition_formula_witness:
  "(0::int) \<le> 7
   \<and> calculateGridPosition 7 3 (Finite 10) (Finite 0) (Finite 0) (Finite 50) (Finite 50)
       = \<lparr>pos_x = Finite 60, pos_y = Finite (- 120)\<rparr>
   \<and> valid_double (Finite 5) \<and> is_finite (dadd (Finite 50) (Finite 10))
   \<and> calculateGridPosition 0 0 (Finite 10) (Finite 5) (Finite 5) (Finite 50) (Finite 50)
       = \<lparr>pos_x = Finite 5, pos_y = Finite 5\<rparr>"
proof -
  have v: "valid_double (Finite 5)"
    by (simp add: round64_numeral)
  have f: "is_finite (dadd (Finite 50) (Finite 10))"
    by (simp add: round64_numeral)
  show ?thesis
    using calculateGridPosition_formula [of 7 3 "Finite 10" "Finite 0" "Finite 0" "Finite 50"
        "Finite 50"]
      calculateGridPosition_formula [of 7 0 "Finite 10" "Finite 5" "Finite 5" "Finite 50"
        "Finite 50"] v f
    by (simp add: double_of_int_exact round64_numeral dsub_def)
qed

section \<open>The checksum\<close>

lemma code128b_value_nonneg: "0 \<le> code128b_value c"
  by (simp add: code128b_value_def)

text \<open>The loop adds the weighted values to the running sum.\<close>

lemma checksum_loop_sum:
  "checksum_loop data i s = s + (\<Sum>k<length data. code128b_value (data ! k) * (i + int k + 1))"
proof (induction data arbitrary: i s)
  case Nil
  show ?case by simp
next
  case (Cons c rest)
  define F where "F k = code128b_value ((c # rest) ! k) * (i + int k + 1)" for k
  have "(\<Sum>k<Suc (length rest). F k) = F 0 + (\<Sum>k<length rest. F (Suc k))"
    by (rule sum.lessThan_Suc_shift)
  moreover have "F (Suc k) = code128b_value (rest ! k) * (i + 1 + int k + 1)" for k
    by (simp add: F_def)
  moreover have "F 0 = code128b_value c * (i + 1)"
    by (simp add: F_def)
  ultimately have
    "(\<Sum>k<length (c # rest). code128b_value ((c # rest) ! k) * (i + int k + 1))
       = code128b_value c * (i + 1)
         + (\<Sum>k<length rest. code128b_value (rest ! k) * (i + 1 + int k + 1))"
    by (simp add: F_def)
  then show ?case
    by (simp add: Cons.IH)
qed

lemma smod_nonneg: "0 \<le> a \<Longrightarrow> a smod 103 = a mod (103::int)"
  by (simp add: signed_modulo_int_def sgn_if)

lemma weighted_nonneg: "0 \<le> (\<Sum>k<length data. code128b_value (data ! k) * (int k + 1))"
  by (rule sum_nonneg) (simp add: code128b_value_nonneg)

lemma checksum_nonneg_start:
  assumes "0 \<le> startValue"
  shows "calculate_checksum data startValue
           = (startValue + (\<Sum>k<length data. code128b_value (data ! k) * (int k + 1))) mod 103"
proof -
  have "0 \<le> startValue + (\<Sum>k<length data. code128b_value (data ! k) * (int k + 1))"
    using assms weighted_nonneg [of data] by simp
  then show ?thesis
    by (simp add: calculate_checksum_def checksum_loop_sum smod_nonneg)
qed

text \<open>
  The data that reach \<open>calculate_checksum\<close> have at most 80 characters (the generator
  returns before for longer ones); with the start value 104 the sum stays far below
  \<open>2 ^ 31\<close>, so that the \<open>int\<close> of the source does not overflow.
\<close>

lemma weighted_sum_bound:
  "(\<Sum>k<length data. code128b_value (data ! k) * (int k + 1))
     \<le> 95 * (int (length data) * int (length data))"
proof -
  have "code128b_value (data ! k) * (int k + 1) \<le> 95 * int (length data)"
    if "k \<in> {..<length data}" for k
  proof -
    have "code128b_value (data ! k) \<le> 95" "0 \<le> code128b_value (data ! k)"
      by (simp_all add: code128b_value_def)
    moreover have "int k + 1 \<le> int (length data)" "0 \<le> int k + 1"
      using that by simp_all
    ultimately have "code128b_value (data ! k) * (int k + 1) \<le> 95 * int (length data)"
      by (intro mult_mono) simp_all
    then show ?thesis .
  qed
  then have "(\<Sum>k<length data. code128b_value (data ! k) * (int k + 1))
               \<le> (\<Sum>k<length data. 95 * int (length data))"
    by (rule sum_mono)
  then show ?thesis
    by simp
qed

lemma checksum_no_overflow:
  assumes "length data \<le> 80"
  shows "104 + (\<Sum>k<length data. code128b_value (data ! k) * (int k + 1)) < 2 ^ 31"
proof -
  have "int (length data) * int (length data) \<le> 80 * 80"
    using assms by (intro mult_mono) simp_all
  with weighted_sum_bound [of data] show ?thesis
    by simp
qed

text \<open>
  Claim C4. \<open>calculate_checksum\<close> is a static function whose only call passes the
  start value 104 and data of at most 80 characters. For every string and every start
  value that is not negative, with a sum that fits an \<open>int\<close>: the checksum is the
  start value plus the sum of the character values times their positions counted from
  1, modulo 103; it lies in 0..102; the value of a character is its code minus 32 for
  the codes 32..127 and 0 otherwise. The generator draws, between the data and the stop
  pattern, the pattern of the checksum computed with the start value 104; and for data
  of at most 80 characters and this start value the sum fits an \<open>int\<close>, so that the
  formula and the range hold for every call the program makes.
\<close>

theorem checksum_formula:
  assumes "0 \<le> startValue"
    and "startValue + (\<Sum>k<length data. code128b_value (data ! k) * (int k + 1)) < 2 ^ 31"
  shows "calculate_checksum data startValue
           = (startValue + (\<Sum>k<length data. code128b_value (data ! k) * (int k + 1))) mod 103
       \<and> 0 \<le> calculate_checksum data startValue \<and> calculate_checksum data startValue \<le> 102
       \<and> code128b_value c = (if 32 \<le> byte c \<and> byte c \<le> 127 then int (byte c) - 32 else 0)
       \<and> pure_c_drawn data
           = [CODE128_PATTERNS ! 104] @ data_patterns data
             @ [CODE128_PATTERNS ! nat (calculate_checksum data 104)] @ [CODE128_PATTERNS ! 106]
       \<and> (length data \<le> 80 \<longrightarrow>
            104 + (\<Sum>k<length data. code128b_value (data ! k) * (int k + 1)) < 2 ^ 31
            \<and> calculate_checksum data 104
                = (104 + (\<Sum>k<length data. code128b_value (data ! k) * (int k + 1))) mod 103
            \<and> 0 \<le> calculate_checksum data 104 \<and> calculate_checksum data 104 \<le> 102)"
proof -
  let ?sum = "\<Sum>k<length data. code128b_value (data ! k) * (int k + 1)"
  have f: "calculate_checksum data startValue = (startValue + ?sum) mod 103"
    using assms(1) by (rule checksum_nonneg_start)
  have lo: "0 \<le> (startValue + ?sum) mod 103" and hi: "(startValue + ?sum) mod 103 < 103"
    by simp_all
  have g: "calculate_checksum data 104 = (104 + ?sum) mod 103"
    by (rule checksum_nonneg_start) simp
  have glo: "0 \<le> (104 + ?sum) mod 103" and ghi: "(104 + ?sum) mod 103 < 103"
    by simp_all
  then have b: "0 \<le> calculate_checksum data 104 \<and> calculate_checksum data 104 < 106"
    unfolding g by simp
  have p: "pure_c_drawn data
           = [CODE128_PATTERNS ! 104] @ data_patterns data
             @ [CODE128_PATTERNS ! nat (calculate_checksum data 104)] @ [CODE128_PATTERNS ! 106]"
    using b by (simp add: pure_c_drawn_def Let_def)
  have v: "code128b_value c = (if 32 \<le> byte c \<and> byte c \<le> 127 then int (byte c) - 32 else 0)"
    by (simp add: code128b_value_def)
  have r: "104 + ?sum < 2 ^ 31" if "length data \<le> 80"
    using that by (rule checksum_no_overflow)
  have gr: "0 \<le> calculate_checksum data 104 \<and> calculate_checksum data 104 \<le> 102"
    using glo ghi unfolding g by simp
  have fr: "0 \<le> calculate_checksum data startValue \<and> calculate_checksum data startValue \<le> 102"
    using lo hi unfolding f by simp
  show ?thesis
    using f fr v p r g gr by blast
qed

theorem checksum_formula_witness:
  "(0::int) \<le> 104
   \<and> 104 + (\<Sum>k<length ''AB''. code128b_value (''AB'' ! k) * (int k + 1)) < 2 ^ 31
   \<and> length ''AB'' \<le> 80
   \<and> calculate_checksum ''AB'' 104 = 102
   \<and> code128b_value (CHR ''A'') = 33
   \<and> pure_c_drawn ''AB'' = [''211214'', ''111323'', ''131123'', ''411131'', ''2331112'']"
proof -
  have v: "code128b_value (CHR ''A'') = 33" "code128b_value (CHR ''B'') = 34"
    by (simp_all add: code128b_value_def byte_def)
  have s: "(\<Sum>k<length ''AB''. code128b_value (''AB'' ! k) * (int k + 1)) = 101"
    using checksum_loop_sum [of "''AB''" 0 0] by (simp add: v)
  have c: "calculate_checksum ''AB'' 104 = 102"
    by (simp add: calculate_checksum_def v signed_modulo_int_def)
  have t: "CODE128_PATTERNS ! 104 = ''211214''" "CODE128_PATTERNS ! 106 = ''2331112''"
    "CODE128_PATTERNS ! 33 = ''111323''" "CODE128_PATTERNS ! 34 = ''131123''"
    "CODE128_PATTERNS ! 102 = ''411131''"
    by (simp_all add: CODE128_PATTERNS_def)
  have d: "data_patterns ''AB'' = [''111323'', ''131123'']"
    by (simp add: data_patterns_def v t)
  show ?thesis
    using checksum_formula [of 104 "''AB''" "CHR ''A''"]
    by (simp add: s c v t d)
qed

section \<open>Batch insertion\<close>

lemma tally_Nil: "tally result [] = result"
  by (simp add: tally_def failed_def succeeded_def)

lemma tally_success: "tally result ((p, True, m) # outs) = tally (record_success result) outs"
  by (simp add: tally_def failed_def succeeded_def record_success_def)

lemma tally_failure: "tally result ((p, False, m) # outs) = tally (record_failure p m result) outs"
  by (simp add: tally_def failed_def succeeded_def record_failure_def)

text \<open>
  Each loop counts in the outcome of every requested insertion: it goes on after a
  failure exactly as after a success.
\<close>

lemma images_loop_tally:
  "fst (images_loop insertImage m_lastError images result b)
     = tally result (attempt_all insertImage m_lastError (map image_attempt images) b)"
proof (induction images arbitrary: result b)
  case Nil
  show ?case by (simp add: tally_Nil)
next
  case (Cons img rest)
  obtain inserted b' where
    i: "insertImage b (imagePath img) (img_x img) (img_y img) (img_width img) (img_height img)
          = (inserted, b')"
    by (cases "insertImage b (imagePath img) (img_x img) (img_y img) (img_width img) (img_height img)")
  show ?case
    by (cases inserted) (simp_all add: i image_attempt_def Cons.IH tally_success tally_failure)
qed

lemma upt_shift: "[i..<i + Suc n] = i # [Suc i..<Suc i + n]"
  by (subst upt_rec) simp

lemma grid_attempts_Cons:
  "grid_attempts params columns i (path # rest)
     = grid_attempt params columns i path # grid_attempts params columns (Suc i) rest"
  unfolding grid_attempts_def length_Cons upt_shift by simp

lemma grid_loop_tally:
  "fst (grid_loop insertImage m_lastError columns params i paths result b)
     = tally result (attempt_all insertImage m_lastError (grid_attempts params columns i paths) b)"
proof (induction paths arbitrary: i result b)
  case Nil
  show ?case by (simp add: tally_Nil grid_attempts_def)
next
  case (Cons path rest)
  define pos where "pos = calculateGridPosition (int i) columns (gl_spacing params)
                  (gl_startX params) (gl_startY params) (gl_width params) (gl_height params)"
  obtain inserted b' where
    i: "insertImage b path (pos_x pos) (pos_y pos) (gl_width params) (gl_height params)
          = (inserted, b')"
    by (cases "insertImage b path (pos_x pos) (pos_y pos) (gl_width params) (gl_height params)")
  have a: "grid_attempt params columns i path
             = (path, pos_x pos, pos_y pos, gl_width params, gl_height params)"
    by (simp add: grid_attempt_def pos_def Let_def)
  show ?case
    by (cases inserted)
       (simp_all add: grid_attempts_Cons a i pos_def [symmetric] Cons.IH tally_success
          tally_failure)
qed

lemma attempt_all_paths:
  "map fst (attempt_all insertImage m_lastError attempts b) = map fst attempts"
  by (induction insertImage m_lastError attempts b rule: attempt_all.induct)
     (simp_all add: Let_def split: prod.splits)

lemma grid_attempts_paths: "map fst (grid_attempts params columns i paths) = paths"
  by (induction paths arbitrary: i) (simp_all add: grid_attempts_Cons grid_attempt_def Let_def, simp add: grid_attempts_def)

lemma image_attempt_paths: "map fst (map image_attempt images) = map imagePath images"
  by (simp add: image_attempt_def)

lemma succeeded_failed: "length (succeeded outcomes) + length (failed outcomes) = length outcomes"
  unfolding succeeded_def failed_def
  by (induction outcomes) auto

lemma tally_empty_invariant:
  assumes "length outcomes = n"
  shows "totalCount (tally (empty_result n) outcomes) = int n
       \<and> successCount (tally (empty_result n) outcomes) + failCount (tally (empty_result n) outcomes)
           = totalCount (tally (empty_result n) outcomes)
       \<and> int (length (failedPaths (tally (empty_result n) outcomes)))
           = failCount (tally (empty_result n) outcomes)
       \<and> int (length (errorMessages (tally (empty_result n) outcomes)))
           = failCount (tally (empty_result n) outcomes)
       \<and> successCount (tally (empty_result n) outcomes) = int (length (succeeded outcomes))
       \<and> failCount (tally (empty_result n) outcomes) = int (length (failed outcomes))
       \<and> failedPaths (tally (empty_result n) outcomes) = map fst (failed outcomes)
       \<and> errorMessages (tally (empty_result n) outcomes) = map (snd \<circ> snd) (failed outcomes)"
  using assms succeeded_failed [of outcomes]
  by (simp add: tally_def empty_result_def)

lemma batchInsertImages_tally:
  "fst (batchInsertImages insertImage m_lastError images b)
     = tally (empty_result (length images))
         (attempt_all insertImage m_lastError (map image_attempt images) b)"
  by (cases images)
     (simp_all add: batchInsertImages_def images_loop_tally tally_Nil del: images_loop.simps)

lemma batchInsertImagesGrid_tally:
  "fst (batchInsertImagesGrid insertImage m_lastError imagePaths params b)
     = tally (empty_result (length imagePaths))
         (attempt_all insertImage m_lastError
            (grid_attempts params (max (gl_columns params) 1) 0 imagePaths) b)"
proof -
  have c: "(if gl_columns params < 1 then 1 else gl_columns params) = max (gl_columns params) 1"
    by simp
  show ?thesis
    unfolding batchInsertImagesGrid_def c Let_def
    by (cases imagePaths)
       (simp_all add: grid_loop_tally grid_attempts_def tally_Nil del: grid_loop.simps)
qed

text \<open>
  Claim C6. For every list of paths (the empty one included) the result of
  \<open>batchInsertImagesGrid\<close> has \<open>totalCount\<close> equal to the number of paths, the success and
  failure counts add up to it, and \<open>failedPaths\<close> and \<open>errorMessages\<close> have \<open>failCount\<close>
  entries each. No failure stops the batch: with \<open>outcomes\<close> the result of attempting the
  insertion of every path in order, at its grid position, the successes counted are the
  successful attempts and the failed paths and messages are those of the failed
  attempts. The same holds for \<open>batchInsertImages\<close>.
\<close>

theorem batch_aggregation_invariant:
  "(let r = fst (batchInsertImagesGrid insertImage m_lastError imagePaths params b);
        outcomes = attempt_all insertImage m_lastError
                     (grid_attempts params (max (gl_columns params) 1) 0 imagePaths) b
    in totalCount r = int (length imagePaths)
       \<and> successCount r + failCount r = totalCount r
       \<and> int (length (failedPaths r)) = failCount r
       \<and> int (length (errorMessages r)) = failCount r
       \<and> map fst outcomes = imagePaths
       \<and> successCount r = int (length (succeeded outcomes))
       \<and> failedPaths r = map fst (failed outcomes)
       \<and> errorMessages r = map (snd \<circ> snd) (failed outcomes))
   \<and> (let r = fst (batchInsertImages insertImage m_lastError images b);
          outcomes = attempt_all insertImage m_lastError (map image_attempt images) b
      in totalCount r = int (length images)
         \<and> successCount r + failCount r = totalCount r
         \<and> int (length (failedPaths r)) = failCount r
         \<and> int (length (errorMessages r)) = failCount r
         \<and> map fst outcomes = map imagePath images
         \<and> successCount r = int (length (succeeded outcomes))
         \<and> failedPaths r = map fst (failed outcomes)
         \<and> errorMessages r = map (snd \<circ> snd) (failed outcomes))"
proof -
  define og where "og = attempt_all insertImage m_lastError
                     (grid_attempts params (max (gl_columns params) 1) 0 imagePaths) b"
  define oi where "oi = attempt_all insertImage m_lastError (map image_attempt images) b"
  have pg: "map fst og = imagePaths"
    by (simp add: og_def attempt_all_paths grid_attempts_paths)
  then have lg: "length og = length imagePaths"
    by (metis length_map)
  have pi: "map fst oi = map imagePath images"
    by (simp add: oi_def attempt_all_paths image_attempt_paths del: map_map)
  then have li: "length oi = length images"
    by (metis length_map)
  show ?thesis
    unfolding Let_def batchInsertImagesGrid_tally batchInsertImages_tally
      og_def [symmetric] oi_def [symmetric]
    using tally_empty_invariant [OF lg] tally_empty_invariant [OF li] pg pi
    by simp
qed

theorem batch_aggregation_invariant_witness:
  "fst (batchInsertImagesGrid insert_nonempty last_message [''a.png'', [], ''c.png'']
          \<lparr>gl_startX = Finite 0, gl_startY = Finite 0, gl_width = Finite 50,
           gl_height = Finite 50, gl_columns = 2, gl_spacing = Finite 10\<rparr> [])
     = \<lparr>totalCount = 3, successCount = 2, failCount = 1, failedPaths = [[]],
        errorMessages = [''Image path cannot be empty'']\<rparr>
   \<and> totalCount (fst (batchInsertImages insert_nonempty last_message [] [])) = 0
   \<and> successCount (fst (batchInsertImages insert_nonempty last_message [] [])) = 0
   \<and> failCount (fst (batchInsertImages insert_nonempty last_message [] [])) = 0"
proof -
  have g: "fst (batchInsertImagesGrid insert_nonempty last_message [''a.png'', [], ''c.png'']
          \<lparr>gl_startX = Finite 0, gl_startY = Finite 0, gl_width = Finite 50,
           gl_height = Finite 50, gl_columns = 2, gl_spacing = Finite 10\<rparr> [])
     = \<lparr>totalCount = 3, successCount = 2, failCount = 1, failedPaths = [[]],
        errorMessages = [''Image path cannot be empty'']\<rparr>"
    by (simp add: batchInsertImagesGrid_def insert_nonempty_def last_message_def
        empty_result_def record_success_def record_failure_def Let_def)
  show ?thesis
    using batch_aggregation_invariant [of insert_nonempty last_message "[''a.png'', [], ''c.png'']"
        "\<lparr>gl_startX = Finite 0, gl_startY = Finite 0, gl_width = Finite 50,
           gl_height = Finite 50, gl_columns = 2, gl_spacing = Finite 10\<rparr>" "[]" "[]"]
    by (simp add: g Let_def batchInsertImages_def empty_result_def)
qed

section \<open>The batch processor\<close>






section \<open>The length limit of the dependency-free generator\<close>

text \<open>
  Claim C10. On data of more than 80 characters (with an output path),
  \<open>barcode_generate_pure_c\<close> returns -2 and writes no file, and the wrapper
  \<open>barcode_generate_c\<close> returns -2 with the message "Data too long (max 80 characters)"
  and writes no file, although \<open>validateData\<close> accepts these data for Code 128.
\<close>

theorem pure_c_length_cap:
  assumes "80 < length d"
  shows "barcode_generate_pure_c malloc_ok fopen_ok (Some d) (Some path) width height margin
           = (- 2, None)
       \<and> barcode_generate_c malloc_ok fopen_ok (Some d) type width height margin (Some path)
           = (- 2, ''Data too long (max 80 characters)'', None)
       \<and> validateData d CODE_128"
proof -
  from assms have n: "d \<noteq> []"
    by auto
  have r: "barcode_generate_pure_c malloc_ok fopen_ok (Some d) (Some path) width height margin
             = (- 2, None)"
    using assms n by (simp add: barcode_generate_pure_c_def)
  show ?thesis
    using n by (simp add: barcode_generate_c_def r validateData_def)
qed

theorem pure_c_length_cap_witness:
  "80 < length (replicate 81 (CHR ''A''))
   \<and> barcode_generate_c succeeds succeeds (Some (replicate 81 (CHR ''A''))) 0 300 100 10
         (Some ''out.bmp'')
       = (- 2, ''Data too long (max 80 characters)'', None)"
  using pure_c_length_cap [of "replicate 81 (CHR ''A'')" succeeds succeeds "''out.bmp''" 300 100 10 0]
  by simp

end
